theory Spec2Isabelle
  imports Main "HOL-Library.AList"
begin

section \<open>The realtime relay of src/server/index.js\<close>

text \<open>
  The Socket.IO part of the server (lines 55 to 119 of \<^verbatim>\<open>src/server/index.js\<close>) keeps
  two pieces of state: the sockets known to the \<^verbatim>\<open>io\<close> server, each with the rooms
  it joined and its \<^verbatim>\<open>socket.data.user\<close>, and the module-level
  \<^verbatim>\<open>onlineUsers\<close> map from an email to a socket id. Each handler is embedded as a
  function from the state to the new state and the list of effects it produced
  (events emitted to sockets, calls to the store, console lines), in the order the
  handler produces them.
\<close>

subsection \<open>Data\<close>

type_synonym conn_id = string
type_synonym room_id = string

text \<open>The \<^verbatim>\<open>user\<close> object of a \<^verbatim>\<open>join-room\<close> payload.\<close>

record user =
  user_id :: string
  name :: string
  email :: string

text \<open>The payload of \<^verbatim>\<open>send_message\<close>, destructured at line 79.\<close>

record message =
  roomId :: room_id
  sender_id :: string
  sender_email :: string
  content :: string
  created_at :: string

text \<open>The payload of \<^verbatim>\<open>new_room_created\<close>, destructured at line 99.\<close>

record room_info =
  room_id :: string
  room_name :: string
  is_group :: bool
  members :: "string list"

text \<open>
  What the relay holds about one connected socket: the rooms it joined
  (\<^verbatim>\<open>socket.join\<close> adds to a set) and \<^verbatim>\<open>socket.data.user\<close>, undefined until
  the first \<^verbatim>\<open>join-room\<close>.
\<close>

record socket =
  rooms :: "room_id set"
  data_user :: "user option"

text \<open>
  \<^verbatim>\<open>sockets\<close> lists the connected sockets in connection order, keyed by
  \<^verbatim>\<open>socket.id\<close>; \<^verbatim>\<open>onlineUsers\<close> is the \<^verbatim>\<open>Map\<close> of line 57.
\<close>

record state =
  sockets :: "(conn_id \<times> socket) list"
  onlineUsers :: "string \<rightharpoonup> conn_id"

text \<open>
  The outcome of an awaited store call: the call resolves without an error,
  resolves with \<^verbatim>\<open>{ error }\<close> set, or the promise rejects.
\<close>

datatype store_result = Stored | StoreError string | Rejected string

text \<open>The events the server emits to sockets, with their payloads.\<close>

datatype out_event =
    user_online string
  | typing_out bool string
  | receive_message message
  | room_added room_info
  | offer_out conn_id string
  | answer_out conn_id string
  | ice_candidate_out conn_id string
  | user_offline string string

text \<open>The console lines of the socket handlers (lines 60, 68, 89, 94, 116).\<close>

datatype console_line =
    log_connected conn_id
  | log_joined string room_id
  | error_insert string
  | error_send string
  | log_disconnected string

text \<open>
  One effect of a handler: an event delivered to one socket, the insert into
  \<^verbatim>\<open>messages\<close> (line 82), the update of \<^verbatim>\<open>last_seen\<close> (line 115), or a console
  line.
\<close>

datatype effect =
    Emit conn_id out_event
  | InsertMessage room_id string string string string
  | UpdateLastSeen string string
  | Console console_line

subsection \<open>The connection registry and the broadcaster\<close>

text \<open>
  The Socket.IO server object (\<^verbatim>\<open>io\<close>, \<^verbatim>\<open>socket.join\<close>,
  \<^verbatim>\<open>io.to(room).emit\<close>, \<^verbatim>\<open>socket.to(room).emit\<close>, \<^verbatim>\<open>io.emit\<close>) is a
  library the source imports; its part in the handlers is taken from the spec's
  Connection Registry and Room Broadcaster.
\<close>

text \<open>
  Modelled from the spec: whether a connection is in the Connection Registry (the
  registry itself is Socket.IO's).
\<close>

definition registered :: "(conn_id \<times> socket) list \<Rightarrow> conn_id \<Rightarrow> bool" where
  "registered reg c = (map_of reg c \<noteq> None)"

text \<open>
  Modelled from the spec: \<open>register(connectionId)\<close> of the Connection Registry,
  which creates empty state for a new connection (Socket.IO does it before it calls
  the \<^verbatim>\<open>connection\<close> callback, with an id no other socket has).
\<close>

definition register :: "conn_id \<Rightarrow> (conn_id \<times> socket) list \<Rightarrow> (conn_id \<times> socket) list" where
  "register c reg =
     (if registered reg c then reg else reg @ [(c, \<lparr>rooms = {}, data_user = None\<rparr>)])"

text \<open>
  Modelled from the spec: the room half of \<open>joinRoom\<close>, which attaches room
  membership and is idempotent per room; it is Socket.IO's \<^verbatim>\<open>socket.join\<close>,
  called at line 64.
\<close>

definition socket_join :: "conn_id \<Rightarrow> room_id \<Rightarrow> (conn_id \<times> socket) list \<Rightarrow> (conn_id \<times> socket) list" where
  "socket_join c r reg = AList.map_entry c (\<lambda>k. k\<lparr>rooms := insert r (rooms k)\<rparr>) reg"

text \<open>The assignment \<^verbatim>\<open>socket.data.user = user\<close> of line 65.\<close>

definition set_data_user :: "conn_id \<Rightarrow> user \<Rightarrow> (conn_id \<times> socket) list \<Rightarrow> (conn_id \<times> socket) list" where
  "set_data_user c u reg = AList.map_entry c (\<lambda>k. k\<lparr>data_user := Some u\<rparr>) reg"

text \<open>
  Modelled from the spec: \<open>getIdentity(connectionId)\<close>, the stored identity or
  none if the connection has not joined; in the source it is the read of
  \<^verbatim>\<open>socket.data.user\<close>.
\<close>

definition getIdentity :: "(conn_id \<times> socket) list \<Rightarrow> conn_id \<Rightarrow> user option" where
  "getIdentity reg c = (case map_of reg c of None \<Rightarrow> None | Some k \<Rightarrow> data_user k)"

text \<open>
  Modelled from the spec: \<open>unregister(connectionId)\<close>, which removes all state of
  the connection (Socket.IO does it before it calls the \<^verbatim>\<open>disconnect\<close> handler).
\<close>

definition unregister :: "conn_id \<Rightarrow> (conn_id \<times> socket) list \<Rightarrow> (conn_id \<times> socket) list" where
  "unregister c reg = AList.delete c reg"

text \<open>
  Modelled from the spec: a room is the set of connections whose joined-room set
  contains it.
\<close>

definition is_member :: "(conn_id \<times> socket) list \<Rightarrow> conn_id \<Rightarrow> room_id \<Rightarrow> bool" where
  "is_member reg c r = (case map_of reg c of None \<Rightarrow> False | Some k \<Rightarrow> r \<in> rooms k)"

text \<open>
  Modelled from the spec: \<open>broadcast(roomId, eventName, payload, excludeConnectionId?)\<close>
  of the Room Broadcaster, which delivers to every connection currently registered as
  a member of the room, skipping the excluded one if given. \<^verbatim>\<open>io.to(r).emit\<close> is
  the call with no exclusion, \<^verbatim>\<open>socket.to(r).emit\<close> the call excluding the
  socket itself.
\<close>

definition broadcast ::
  "(conn_id \<times> socket) list \<Rightarrow> room_id \<Rightarrow> out_event \<Rightarrow> conn_id option \<Rightarrow> effect list" where
  "broadcast reg r ev exclude =
     map (\<lambda>c. Emit c ev)
       (filter (\<lambda>c. is_member reg c r \<and> Some c \<noteq> exclude) (map fst reg))"

text \<open>
  Modelled from the spec: \<open>broadcastGlobal(eventName, payload)\<close>, which delivers
  to all currently known connections regardless of room; it is \<^verbatim>\<open>io.emit\<close>.
\<close>

definition broadcastGlobal :: "(conn_id \<times> socket) list \<Rightarrow> out_event \<Rightarrow> effect list" where
  "broadcastGlobal reg ev = map (\<lambda>c. Emit c ev) (map fst reg)"

text \<open>
  Modelled from the spec: \<open>isOnline(userKey)\<close>, the existence check on
  \<^verbatim>\<open>onlineUsers\<close>; the source has no reader of the map.
\<close>

definition isOnline :: "state \<Rightarrow> string \<Rightarrow> bool" where
  "isOnline s e = (onlineUsers s e \<noteq> None)"

subsection \<open>The handlers\<close>

text \<open>
  Lines 63 to 69. \<open>c\<close> is the id of the socket the handler was installed on.
\<close>

definition on_join_room :: "conn_id \<Rightarrow> room_id \<Rightarrow> user \<Rightarrow> state \<Rightarrow> state \<times> effect list" where
  "on_join_room c r u s =
     (let reg = set_data_user c u (socket_join c r (sockets s));
          s' = \<lparr>sockets = reg, onlineUsers = (onlineUsers s)(email u \<mapsto> c)\<rparr>
      in (s', broadcast reg r (user_online (email u)) None @ [Console (log_joined (name u) r)]))"

text \<open>Lines 72 to 74.\<close>

definition on_typing :: "conn_id \<Rightarrow> room_id \<Rightarrow> bool \<Rightarrow> string \<Rightarrow> state \<Rightarrow> state \<times> effect list" where
  "on_typing c r isTyping senderName s =
     (s, broadcast (sockets s) r (typing_out isTyping senderName) (Some c))"

text \<open>
  Lines 77 to 96. The handler touches no state before its \<^verbatim>\<open>await\<close>; the state
  it reads afterwards is the one at the moment the insert settles, so \<open>s\<close> is
  that state and \<open>res\<close> the outcome of the insert.
\<close>

definition on_send_message :: "message \<Rightarrow> store_result \<Rightarrow> state \<Rightarrow> state \<times> effect list" where
  "on_send_message msg res s =
     (s, InsertMessage (roomId msg) (sender_id msg) (sender_email msg) (content msg) (created_at msg) #
         (case res of
            StoreError e \<Rightarrow> [Console (error_insert e)]
          | Rejected e \<Rightarrow> [Console (error_send e)]
          | Stored \<Rightarrow> broadcast (sockets s) (roomId msg) (receive_message msg) None))"

text \<open>Lines 99 to 101.\<close>

definition on_new_room_created :: "room_info \<Rightarrow> state \<Rightarrow> state \<times> effect list" where
  "on_new_room_created info s = (s, broadcastGlobal (sockets s) (room_added info))"

text \<open>Lines 104 to 106.\<close>

definition on_offer :: "conn_id \<Rightarrow> room_id \<Rightarrow> string \<Rightarrow> state \<Rightarrow> state \<times> effect list" where
  "on_offer c r sdp s = (s, broadcast (sockets s) r (offer_out c sdp) (Some c))"

definition on_answer :: "conn_id \<Rightarrow> room_id \<Rightarrow> string \<Rightarrow> state \<Rightarrow> state \<times> effect list" where
  "on_answer c r sdp s = (s, broadcast (sockets s) r (answer_out c sdp) (Some c))"

definition on_ice_candidate :: "conn_id \<Rightarrow> room_id \<Rightarrow> string \<Rightarrow> state \<Rightarrow> state \<times> effect list" where
  "on_ice_candidate c r candidate s =
     (s, broadcast (sockets s) r (ice_candidate_out c candidate) (Some c))"

text \<open>
  Lines 109 to 118. \<open>k\<close> is the closing socket's own record, which the handler
  still reads after the server has dropped the socket; \<open>s\<close> is the state with the
  socket already unregistered; \<open>lastSeen\<close> is the string
  \<^verbatim>\<open>new Date().toISOString()\<close> returned; \<open>res\<close> is the outcome of the awaited
  update, after which only the console line is left to run.
\<close>

definition on_disconnect :: "socket \<Rightarrow> string \<Rightarrow> store_result \<Rightarrow> state \<Rightarrow> state \<times> effect list" where
  "on_disconnect k lastSeen res s =
     (case data_user k of
        None \<Rightarrow> (s, [])
      | Some u \<Rightarrow>
          (s\<lparr>onlineUsers := (onlineUsers s)(email u := None)\<rparr>,
           broadcastGlobal (sockets s) (user_offline (email u) lastSeen) @
           [UpdateLastSeen (email u) lastSeen] @
           (case res of
              Rejected e \<Rightarrow> []
            | _ \<Rightarrow> [Console (log_disconnected (name u))])))"

subsection \<open>Dispatch\<close>

text \<open>
  The inbound events. A \<open>send_message\<close> event stands for the moment its insert
  settles, and carries the outcome; a \<open>disconnect\<close> event carries the clock
  reading and the outcome of the update.
\<close>

datatype event =
    connection conn_id
  | join_room conn_id room_id user
  | typing conn_id room_id bool string
  | send_message conn_id message store_result
  | new_room_created conn_id room_info
  | offer conn_id room_id string
  | answer conn_id room_id string
  | ice_candidate conn_id room_id string
  | disconnect conn_id string store_result

text \<open>
  Handlers exist only on connected sockets (they are installed inside the
  \<^verbatim>\<open>connection\<close> callback, line 59), so an event of a socket that is not
  registered reaches no handler. The continuation of \<open>send_message\<close> is the
  exception: it runs when the insert settles, whether or not the socket is still
  there. On \<open>disconnect\<close> the server drops the socket before the handler runs.
\<close>

fun step :: "event \<Rightarrow> state \<Rightarrow> state \<times> effect list" where
  "step (connection c) s =
     (if registered (sockets s) c then (s, [])
      else (s\<lparr>sockets := register c (sockets s)\<rparr>, [Console (log_connected c)]))"
| "step (join_room c r u) s =
     (if registered (sockets s) c then on_join_room c r u s else (s, []))"
| "step (typing c r isTyping senderName) s =
     (if registered (sockets s) c then on_typing c r isTyping senderName s else (s, []))"
| "step (send_message c msg res) s = on_send_message msg res s"
| "step (new_room_created c info) s =
     (if registered (sockets s) c then on_new_room_created info s else (s, []))"
| "step (offer c r sdp) s =
     (if registered (sockets s) c then on_offer c r sdp s else (s, []))"
| "step (answer c r sdp) s =
     (if registered (sockets s) c then on_answer c r sdp s else (s, []))"
| "step (ice_candidate c r candidate) s =
     (if registered (sockets s) c then on_ice_candidate c r candidate s else (s, []))"
| "step (disconnect c lastSeen res) s =
     (case map_of (sockets s) c of
        None \<Rightarrow> (s, [])
      | Some k \<Rightarrow> on_disconnect k lastSeen res (s\<lparr>sockets := unregister c (sockets s)\<rparr>))"

text \<open>The server starts with no socket and an empty \<^verbatim>\<open>onlineUsers\<close>.\<close>

definition init :: state where
  "init = \<lparr>sockets = [], onlineUsers = Map.empty\<rparr>"

text \<open>The state after a sequence of events, processed one after the other.\<close>

fun run :: "event list \<Rightarrow> state \<Rightarrow> state" where
  "run [] s = s"
| "run (ev # evs) s = run evs (fst (step ev s))"

subsection \<open>Presence and the registry\<close>

text \<open>
  The spec's global invariant: every entry of \<^verbatim>\<open>onlineUsers\<close> references a socket
  that is registered now.
\<close>

definition presence_consistent :: "state \<Rightarrow> bool" where
  "presence_consistent s = (\<forall>e c. onlineUsers s e = Some c \<longrightarrow> registered (sockets s) c)"

text \<open>
  A \<open>join-room\<close> keeps the socket's email when the socket has no identity yet or
  joins again under the email it already has; a sequence of events has one email
  per socket when each of its events, in the state it is processed in, does.
\<close>

fun same_email :: "state \<Rightarrow> event \<Rightarrow> bool" where
  "same_email s (join_room c r u) =
     (case getIdentity (sockets s) c of None \<Rightarrow> True | Some v \<Rightarrow> email v = email u)"
| "same_email s _ = True"

fun one_email_per_socket :: "event list \<Rightarrow> state \<Rightarrow> bool" where
  "one_email_per_socket [] s = True"
| "one_email_per_socket (ev # evs) s =
     (same_email s ev \<and> one_email_per_socket evs (fst (step ev s)))"

text \<open>
  The stronger form the induction needs: the socket an entry references carries an
  identity with the entry's email.
\<close>

definition presence_inv :: "state \<Rightarrow> bool" where
  "presence_inv s = (\<forall>e c. onlineUsers s e = Some c \<longrightarrow>
      (\<exists>u. getIdentity (sockets s) c = Some u \<and> email u = e))"

subsection \<open>Concrete inputs\<close>

text \<open>
  The spec's scenario: sockets X and Y join room r1 as \<^verbatim>\<open>a@x.com\<close> and
  \<^verbatim>\<open>b@x.com\<close>.
\<close>

definition alice :: user where
  "alice = \<lparr>user_id = ''u1'', name = ''A'', email = ''a@x.com''\<rparr>"

definition bob :: user where
  "bob = \<lparr>user_id = ''u2'', name = ''B'', email = ''b@x.com''\<rparr>"

definition hello :: message where
  "hello = \<lparr>roomId = ''r1'', sender_id = ''u1'', sender_email = ''a@x.com'',
            content = ''hi'', created_at = ''2024-05-01T10:00:00.000Z''\<rparr>"

definition r2_info :: room_info where
  "r2_info = \<lparr>room_id = ''r2'', room_name = ''team'', is_group = True,
              members = [''a@x.com'', ''b@x.com'']\<rparr>"

definition two_joined :: state where
  "two_joined = run [connection ''X'', connection ''Y'',
                     join_room ''X'' ''r1'' alice, join_room ''Y'' ''r1'' bob] init"

definition one_joined :: state where
  "one_joined = run [connection ''X'', connection ''Y'', join_room ''X'' ''r1'' alice] init"

definition only_connected :: state where
  "only_connected = run [connection ''X''] init"

definition two_connected :: state where
  "two_connected = run [connection ''A'', connection ''B''] init"

section \<open>Properties\<close>

subsection \<open>Registry and broadcaster facts\<close>

lemmas relay_defs =
  init_def register_def registered_def on_join_room_def socket_join_def set_data_user_def
  unregister_def on_disconnect_def on_typing_def on_send_message_def on_new_room_created_def
  broadcast_def broadcastGlobal_def is_member_def getIdentity_def isOnline_def Let_def
  alice_def bob_def hello_def r2_info_def

lemma two_joined_sockets:
  "sockets two_joined =
     [(''X'', \<lparr>rooms = {''r1''}, data_user = Some alice\<rparr>),
      (''Y'', \<lparr>rooms = {''r1''}, data_user = Some bob\<rparr>)]"
  by (simp add: two_joined_def relay_defs)

lemma two_joined_onlineUsers:
  "onlineUsers two_joined = [''a@x.com'' \<mapsto> ''X'', ''b@x.com'' \<mapsto> ''Y'']"
  by (simp add: two_joined_def relay_defs)

lemma one_joined_sockets:
  "sockets one_joined =
     [(''X'', \<lparr>rooms = {''r1''}, data_user = Some alice\<rparr>),
      (''Y'', \<lparr>rooms = {}, data_user = None\<rparr>)]"
  by (simp add: one_joined_def relay_defs)

lemma one_joined_onlineUsers:
  "onlineUsers one_joined = [''a@x.com'' \<mapsto> ''X'']"
  by (simp add: one_joined_def relay_defs)

lemma only_connected_sockets:
  "sockets only_connected = [(''X'', \<lparr>rooms = {}, data_user = None\<rparr>)]"
  by (simp add: only_connected_def relay_defs)

lemma two_connected_sockets:
  "sockets two_connected =
     [(''A'', \<lparr>rooms = {}, data_user = None\<rparr>), (''B'', \<lparr>rooms = {}, data_user = None\<rparr>)]"
  by (simp add: two_connected_def relay_defs)

lemma map_fst_map_entry: "map fst (AList.map_entry c f reg) = map fst reg"
  by (induction reg) auto

lemma is_member_in_keys: "is_member reg d r \<Longrightarrow> d \<in> set (map fst reg)"
  by (force simp: is_member_def split: option.splits dest: map_of_SomeD)

lemma set_broadcast:
  "set (broadcast reg r ev ex) = {Emit d ev | d. is_member reg d r \<and> Some d \<noteq> ex}"
  using is_member_in_keys [of reg _ r] by (auto simp: broadcast_def)

lemma set_broadcastGlobal:
  "set (broadcastGlobal reg ev) = {Emit d ev | d. registered reg d}"
  by (auto simp: broadcastGlobal_def registered_def map_of_eq_None_iff image_iff)

lemma registered_unregister: "registered (unregister c reg) d = (registered reg d \<and> d \<noteq> c)"
  by (auto simp: registered_def unregister_def delete_conv')

lemma map_of_joined:
  "map_of (set_data_user c u (socket_join c r reg)) d =
     (if d = c then (case map_of reg c of None \<Rightarrow> None
                     | Some k \<Rightarrow> Some (k\<lparr>rooms := insert r (rooms k), data_user := Some u\<rparr>))
      else map_of reg d)"
  by (auto simp: set_data_user_def socket_join_def map_of_map_entry split: option.splits)

lemma getIdentity_joined:
  "registered reg c \<Longrightarrow> getIdentity (set_data_user c u (socket_join c r reg)) c = Some u"
  by (auto simp: getIdentity_def map_of_joined registered_def)

lemma is_member_joined:
  "is_member (set_data_user c u (socket_join c r reg)) d r' =
     (if d = c then registered reg c \<and> (r' = r \<or> is_member reg c r') else is_member reg d r')"
  by (auto simp: is_member_def map_of_joined registered_def split: option.splits)

subsection \<open>One step of a handler\<close>

lemma join_room_frame_l:
  "e \<noteq> email u \<Longrightarrow> onlineUsers (fst (step (join_room c r u) s)) e = onlineUsers s e"
  by (simp add: on_join_room_def Let_def)

lemma map_of_after_join:
  "map_of (sockets (fst (on_join_room c r u s))) d =
     (if d = c then (case map_of (sockets s) c of None \<Rightarrow> None
                     | Some k \<Rightarrow> Some (k\<lparr>rooms := insert r (rooms k), data_user := Some u\<rparr>))
      else map_of (sockets s) d)"
  by (simp add: on_join_room_def Let_def map_of_joined)

lemma onlineUsers_after_join:
  "onlineUsers (fst (on_join_room c r u s)) = (onlineUsers s)(email u \<mapsto> c)"
  by (simp add: on_join_room_def Let_def)

lemma registered_after_join:
  "registered (sockets (fst (on_join_room c r u s))) d = registered (sockets s) d"
  by (auto simp: registered_def map_of_after_join split: option.splits)

lemma onlineUsers_after_disconnect:
  "map_of (sockets s) c = Some k \<Longrightarrow> data_user k = Some u \<Longrightarrow>
   onlineUsers (fst (step (disconnect c t res) s)) = (onlineUsers s)(email u := None)"
  by (simp add: on_disconnect_def)

lemma registered_after_disconnect:
  "registered (sockets (fst (step (disconnect c t res) s))) d = (registered (sockets s) d \<and> d \<noteq> c)"
  by (auto simp: on_disconnect_def registered_def unregister_def delete_conv' split: option.splits)

subsection \<open>Socket ids stay distinct\<close>

lemma distinct_step:
  "distinct (map fst (sockets s)) \<Longrightarrow> distinct (map fst (sockets (fst (step ev s))))"
  by (cases ev)
     (auto simp: register_def registered_def map_of_eq_None_iff on_join_room_def Let_def
        set_data_user_def socket_join_def map_fst_map_entry on_typing_def on_send_message_def
        on_new_room_created_def on_offer_def on_answer_def on_ice_candidate_def
        on_disconnect_def unregister_def distinct_delete split: option.splits)

lemma distinct_run:
  "distinct (map fst (sockets s)) \<Longrightarrow> distinct (map fst (sockets (run evs s)))"
  by (induction evs arbitrary: s) (auto simp: distinct_step)

lemma count_emit:
  "distinct xs \<Longrightarrow>
   count_list (map (\<lambda>c. Emit c ev) (filter P xs)) (Emit d ev) = (if d \<in> set xs \<and> P d then 1 else 0)"
  by (induction xs) auto

lemma count_broadcast:
  "distinct (map fst reg) \<Longrightarrow>
   count_list (broadcast reg r ev None) (Emit d ev) = (if is_member reg d r then 1 else 0)"
  using is_member_in_keys [of reg d r] by (auto simp: broadcast_def count_emit)

subsection \<open>The invariant under one email per socket\<close>

lemma presence_inv_step:
  assumes "presence_inv s" and "same_email s ev"
  shows "presence_inv (fst (step ev s))"
proof (cases ev)
  case (connection c)
  show ?thesis
  proof (cases "registered (sockets s) c")
    case True
    with assms connection show ?thesis by simp
  next
    case False
    then have "getIdentity (register c (sockets s)) d = getIdentity (sockets s) d" for d
      by (auto simp: getIdentity_def register_def registered_def map_add_def split: option.splits)
    with assms False connection show ?thesis by (simp add: presence_inv_def)
  qed
next
  case (join_room c r u)
  show ?thesis
  proof (cases "registered (sockets s) c")
    case False
    with assms join_room show ?thesis by simp
  next
    case True
    have id: "getIdentity (sockets (fst (on_join_room c r u s))) d =
               (if d = c then Some u else getIdentity (sockets s) d)" for d
      using True by (auto simp: getIdentity_def map_of_after_join registered_def)
    show ?thesis
      unfolding presence_inv_def
    proof (intro allI impI)
      fix e d
      assume "onlineUsers (fst (step ev s)) e = Some d"
      then have o: "((onlineUsers s)(email u \<mapsto> c)) e = Some d"
        using True join_room by (simp add: onlineUsers_after_join)
      show "\<exists>v. getIdentity (sockets (fst (step ev s))) d = Some v \<and> email v = e"
      proof (cases "e = email u")
        case True
        with o have dc: "d = c" by simp
        have "getIdentity (sockets (fst (step ev s))) c = Some u"
          using \<open>registered (sockets s) c\<close> join_room by (simp add: id)
        with dc True show ?thesis by blast
      next
        case False
        with o have "onlineUsers s e = Some d" by simp
        with assms(1) obtain v where v: "getIdentity (sockets s) d = Some v" "email v = e"
          by (auto simp: presence_inv_def)
        with assms(2) join_room False have "d \<noteq> c" by auto
        with v \<open>registered (sockets s) c\<close> join_room show ?thesis by (simp add: id)
      qed
    qed
  qed
next
  case (disconnect c t res)
  show ?thesis
  proof (cases "map_of (sockets s) c")
    case None
    with assms disconnect show ?thesis by simp
  next
    case (Some k)
    have id: "getIdentity (unregister c (sockets s)) d =
                (if d = c then None else getIdentity (sockets s) d)" for d
      by (simp add: getIdentity_def unregister_def delete_conv')
    show ?thesis
    proof (cases "data_user k")
      case None
      with Some have "getIdentity (sockets s) c = None" by (simp add: getIdentity_def)
      with assms(1) have "onlineUsers s e \<noteq> Some c" for e
        unfolding presence_inv_def by fastforce
      with assms(1) Some None disconnect show ?thesis
        by (auto simp: presence_inv_def on_disconnect_def id)
    next
      case (Some u)
      with \<open>map_of (sockets s) c = Some k\<close> have "getIdentity (sockets s) c = Some u"
        by (simp add: getIdentity_def)
      with assms(1) have "onlineUsers s e = Some c \<Longrightarrow> e = email u" for e
        unfolding presence_inv_def by fastforce
      with assms(1) Some \<open>map_of (sockets s) c = Some k\<close> disconnect show ?thesis
        by (auto simp: presence_inv_def on_disconnect_def id)
    qed
  qed
qed (use assms in \<open>auto simp: on_typing_def on_send_message_def on_new_room_created_def
        on_offer_def on_answer_def on_ice_candidate_def\<close>)

lemma presence_inv_run:
  "presence_inv s \<Longrightarrow> one_email_per_socket evs s \<Longrightarrow> presence_inv (run evs s)"
  by (induction evs arbitrary: s) (auto simp: presence_inv_step)

lemma presence_inv_consistent: "presence_inv s \<Longrightarrow> presence_consistent s"
  by (auto simp: presence_inv_def presence_consistent_def registered_def getIdentity_def
           split: option.splits)

section \<open>The claims\<close>

subsection \<open>C1: a disconnect after a reconnect\<close>

text \<open>
  C1, as stated: when socket A joins as user U, a different socket B joins as the same
  U, and then A's disconnect is processed, \<open>isOnline\<close> of U's email is still true,
  because the disconnect handler removes the entry only if it still points at the
  disconnecting socket. Line 112 deletes the entry of the stored identity's email
  without looking at the socket id it holds: in the run below B is still registered
  with identity \<^verbatim>\<open>a@x.com\<close>, and \<^verbatim>\<open>a@x.com\<close> is offline.
\<close>

theorem reconnect_guard_counterexample:
  "registered
     (sockets (run [connection ''A'', join_room ''A'' ''r1'' alice,
                    connection ''B'', join_room ''B'' ''r1'' alice,
                    disconnect ''A'' ''2024-05-01T10:00:05.000Z'' Stored] init)) ''B'' \<and>
   getIdentity
     (sockets (run [connection ''A'', join_room ''A'' ''r1'' alice,
                    connection ''B'', join_room ''B'' ''r1'' alice,
                    disconnect ''A'' ''2024-05-01T10:00:05.000Z'' Stored] init)) ''B'' = Some alice \<and>
   \<not> isOnline
     (run [connection ''A'', join_room ''A'' ''r1'' alice,
           connection ''B'', join_room ''B'' ''r1'' alice,
           disconnect ''A'' ''2024-05-01T10:00:05.000Z'' Stored] init) ''a@x.com''"
  by (simp add: relay_defs)

text \<open>
  C1, amended: when registered socket A joins as U, a different registered socket B
  joins as the same U, and A's disconnect is processed next, the entry of U's email
  points at B after the two joins, B is still registered after the disconnect, and
  \<open>isOnline\<close> of U's email is false: the handler deletes the entry whatever socket
  it points at.
\<close>

theorem reconnect_unguarded:
  assumes "registered (sockets s) a" and "registered (sockets s) b" and "a \<noteq> b"
  shows "onlineUsers (run [join_room a r1 u, join_room b r2 u] s) (email u) = Some b \<and>
         registered (sockets (run [join_room a r1 u, join_room b r2 u, disconnect a t res] s)) b \<and>
         \<not> isOnline (run [join_room a r1 u, join_room b r2 u, disconnect a t res] s) (email u)"
proof -
  define s1 where "s1 = fst (step (join_room a r1 u) s)"
  define s2 where "s2 = fst (step (join_room b r2 u) s1)"
  have r1: "registered (sockets s1) b" "registered (sockets s1) a"
    using assms by (simp_all add: s1_def registered_after_join)
  have o2: "onlineUsers s2 (email u) = Some b"
    using r1 by (simp add: s2_def onlineUsers_after_join)
  have r2: "registered (sockets s2) b" using r1 by (simp add: s2_def registered_after_join)
  obtain k where k: "map_of (sockets s2) a = Some k" "data_user k = Some u"
    using assms by (auto simp: s1_def s2_def r1 map_of_after_join registered_def)
  have o3: "onlineUsers (fst (step (disconnect a t res) s2)) = (onlineUsers s2)(email u := None)"
    using k by (rule onlineUsers_after_disconnect)
  have r3: "registered (sockets (fst (step (disconnect a t res) s2))) b"
    using r2 assms(3) by (simp only: registered_after_disconnect) simp
  have run2: "run [join_room a r1 u, join_room b r2 u] s = s2" by (simp add: s1_def s2_def)
  have run3: "run [join_room a r1 u, join_room b r2 u, disconnect a t res] s
               = fst (step (disconnect a t res) s2)" by (simp add: s1_def s2_def)
  show ?thesis
    unfolding run2 run3 isOnline_def using o2 o3 r3 by simp
qed

theorem reconnect_unguarded_witness:
  "registered (sockets two_connected) ''A'' \<and> registered (sockets two_connected) ''B'' \<and>
   ''A'' \<noteq> ''B'' \<and>
   onlineUsers (run [join_room ''A'' ''r1'' alice, join_room ''B'' ''r1'' alice] two_connected)
     (email alice) = Some ''B'' \<and>
   registered
     (sockets (run [join_room ''A'' ''r1'' alice, join_room ''B'' ''r1'' alice,
                    disconnect ''A'' ''2024-05-01T10:00:05.000Z'' Stored] two_connected)) ''B'' \<and>
   \<not> isOnline
     (run [join_room ''A'' ''r1'' alice, join_room ''B'' ''r1'' alice,
           disconnect ''A'' ''2024-05-01T10:00:05.000Z'' Stored] two_connected) (email alice)"
proof -
  have x: "registered (sockets two_connected) ''A''"
    by (simp add: two_connected_sockets registered_def)
  have y: "registered (sockets two_connected) ''B''"
    by (simp add: two_connected_sockets registered_def)
  have n: "''A'' \<noteq> ''B''" by simp
  show ?thesis
    using x y
      reconnect_unguarded [OF x y n, of "''r1''" alice "''r1''" "''2024-05-01T10:00:05.000Z''" Stored]
    by simp
qed

subsection \<open>C2: presence entries and registered sockets\<close>

text \<open>
  C2, as stated: in every reachable state every entry of the presence map references a
  registered socket, but for the window between an overwriting join and the stale
  socket's disconnect; no permanent stale entry is reachable. A socket that joins as
  \<^verbatim>\<open>a@x.com\<close>, joins again as \<^verbatim>\<open>b@x.com\<close> and disconnects leaves the entry of
  \<^verbatim>\<open>a@x.com\<close> behind: no socket is registered, no join overwrote anything, and no
  disconnect is left to come that would remove it.
\<close>

theorem stale_presence_counterexample:
  "sockets (run [connection ''X'', join_room ''X'' ''r1'' alice, join_room ''X'' ''r1'' bob,
                 disconnect ''X'' ''2024-05-01T10:00:05.000Z'' Stored] init) = [] \<and>
   onlineUsers (run [connection ''X'', join_room ''X'' ''r1'' alice, join_room ''X'' ''r1'' bob,
                     disconnect ''X'' ''2024-05-01T10:00:05.000Z'' Stored] init) ''a@x.com'' = Some ''X'' \<and>
   \<not> presence_consistent
     (run [connection ''X'', join_room ''X'' ''r1'' alice, join_room ''X'' ''r1'' bob,
           disconnect ''X'' ''2024-05-01T10:00:05.000Z'' Stored] init)"
proof -
  let ?s = "run [connection ''X'', join_room ''X'' ''r1'' alice, join_room ''X'' ''r1'' bob,
                 disconnect ''X'' ''2024-05-01T10:00:05.000Z'' Stored] init"
  have a: "sockets ?s = []" by (simp add: relay_defs)
  have b: "onlineUsers ?s ''a@x.com'' = Some ''X''" by (simp add: relay_defs)
  have "\<not> registered (sockets ?s) ''X''" by (simp only: a) (simp add: registered_def)
  with b have "\<not> presence_consistent ?s" unfolding presence_consistent_def by blast
  with a b show ?thesis by blast
qed

text \<open>
  C2, amended: in every state reached from the initial one by events in which no
  socket joins under an email other than the one of the identity it already has, every
  entry of the presence map references a registered socket, and that socket's identity
  has the entry's email. No window of inconsistency is needed: an overwriting join
  points the entry at the newer socket, which is registered.
\<close>

theorem presence_consistent_single_email:
  assumes "one_email_per_socket evs init"
  shows "presence_consistent (run evs init) \<and>
         (\<forall>e c. onlineUsers (run evs init) e = Some c \<longrightarrow>
            (\<exists>u. getIdentity (sockets (run evs init)) c = Some u \<and> email u = e))"
proof -
  have "presence_inv init" by (simp add: presence_inv_def init_def)
  then have "presence_inv (run evs init)" using assms by (rule presence_inv_run)
  then show ?thesis using presence_inv_consistent by (auto simp: presence_inv_def)
qed

theorem presence_consistent_single_email_witness:
  "one_email_per_socket
     [connection ''A'', join_room ''A'' ''r1'' alice,
      connection ''B'', join_room ''B'' ''r1'' alice, join_room ''A'' ''r2'' alice] init \<and>
   presence_consistent
     (run [connection ''A'', join_room ''A'' ''r1'' alice,
           connection ''B'', join_room ''B'' ''r1'' alice, join_room ''A'' ''r2'' alice] init) \<and>
   onlineUsers
     (run [connection ''A'', join_room ''A'' ''r1'' alice,
           connection ''B'', join_room ''B'' ''r1'' alice, join_room ''A'' ''r2'' alice] init)
     ''a@x.com'' = Some ''A''"
proof -
  let ?evs = "[connection ''A'', join_room ''A'' ''r1'' alice,
               connection ''B'', join_room ''B'' ''r1'' alice, join_room ''A'' ''r2'' alice]"
  have h: "one_email_per_socket ?evs init" by (simp add: relay_defs)
  have o: "onlineUsers (run ?evs init) ''a@x.com'' = Some ''A''" by (simp add: relay_defs)
  show ?thesis
    using h o presence_consistent_single_email [OF h] by blast
qed

subsection \<open>C3: a failed insert drops the message\<close>

text \<open>
  C3: when the insert of a \<open>send_message\<close> does not succeed (it resolves with an
  error, or it rejects), the handler delivers no event to any socket and changes no
  state; beside the insert it issued, its only effect is one console error line.
\<close>

theorem send_message_fail_closed:
  assumes "res \<noteq> Stored"
  shows "fst (step (send_message c msg res) s) = s \<and>
         (\<forall>d ev. Emit d ev \<notin> set (snd (step (send_message c msg res) s))) \<and>
         (\<exists>e. snd (step (send_message c msg res) s) =
            [InsertMessage (roomId msg) (sender_id msg) (sender_email msg) (content msg) (created_at msg),
             Console (error_insert e)] \<or>
           snd (step (send_message c msg res) s) =
            [InsertMessage (roomId msg) (sender_id msg) (sender_email msg) (content msg) (created_at msg),
             Console (error_send e)])"
  using assms by (cases res) (auto simp: on_send_message_def)

theorem send_message_fail_closed_witness:
  "StoreError ''down'' \<noteq> Stored \<and>
   fst (step (send_message ''X'' hello (StoreError ''down'')) two_joined) = two_joined \<and>
   snd (step (send_message ''X'' hello (StoreError ''down'')) two_joined) =
     [InsertMessage ''r1'' ''u1'' ''a@x.com'' ''hi'' ''2024-05-01T10:00:00.000Z'',
      Console (error_insert ''down'')]"
proof -
  have h: "StoreError ''down'' \<noteq> Stored" by simp
  show ?thesis
    using send_message_fail_closed [OF h, of "''X''" hello two_joined]
    by (simp add: on_send_message_def hello_def)
qed

subsection \<open>C4: a stored message reaches each member once\<close>

text \<open>
  C4: in every reachable state, when the insert of a \<open>send_message\<close> succeeds, the
  handler delivers \<open>receive_message\<close> with the message exactly once to each socket
  that is a member of the message's room when the insert settles, the sender included
  when it is a member, and to no other socket; it emits no other event and changes no
  state.
\<close>

theorem send_message_delivery:
  "fst (step (send_message c msg Stored) (run evs init)) = run evs init \<and>
   (\<forall>d. count_list (snd (step (send_message c msg Stored) (run evs init)))
              (Emit d (receive_message msg)) =
            (if is_member (sockets (run evs init)) d (roomId msg) then 1 else 0)) \<and>
   (is_member (sockets (run evs init)) c (roomId msg) \<longrightarrow>
      count_list (snd (step (send_message c msg Stored) (run evs init)))
              (Emit c (receive_message msg)) = 1) \<and>
   (\<forall>d ev. Emit d ev \<in> set (snd (step (send_message c msg Stored) (run evs init)))
        \<longrightarrow> ev = receive_message msg)"
proof -
  have "distinct (map fst (sockets (run evs init)))"
    by (rule distinct_run) (simp add: init_def)
  then show ?thesis
    by (auto simp: on_send_message_def count_broadcast set_broadcast)
qed

theorem send_message_delivery_witness:
  "is_member (sockets two_joined) ''X'' (roomId hello) \<and>
   snd (step (send_message ''X'' hello Stored) two_joined) =
     [InsertMessage ''r1'' ''u1'' ''a@x.com'' ''hi'' ''2024-05-01T10:00:00.000Z'',
      Emit ''X'' (receive_message hello), Emit ''Y'' (receive_message hello)] \<and>
   count_list (snd (step (send_message ''X'' hello Stored) two_joined))
     (Emit ''X'' (receive_message hello)) = 1 \<and>
   count_list (snd (step (send_message ''X'' hello Stored) two_joined))
     (Emit ''Z'' (receive_message hello)) = 0"
proof -
  have m: "is_member (sockets two_joined) ''X'' (roomId hello)"
    by (simp add: two_joined_sockets is_member_def hello_def)
  have z: "\<not> is_member (sockets two_joined) ''Z'' (roomId hello)"
    by (simp add: two_joined_sockets is_member_def hello_def)
  have out: "snd (step (send_message ''X'' hello Stored) two_joined) =
     [InsertMessage ''r1'' ''u1'' ''a@x.com'' ''hi'' ''2024-05-01T10:00:00.000Z'',
      Emit ''X'' (receive_message hello), Emit ''Y'' (receive_message hello)]"
    by (simp add: on_send_message_def broadcast_def is_member_def two_joined_sockets hello_def)
  show ?thesis
    using m z out
      send_message_delivery
        [of "''X''" hello "[connection ''X'', connection ''Y'',
                          join_room ''X'' ''r1'' alice, join_room ''Y'' ''r1'' bob]",
         folded two_joined_def]
    by metis
qed

subsection \<open>C5: the offline notification of a disconnect\<close>

text \<open>
  C5: when a socket with a stored identity disconnects, \<open>user_offline\<close> with the
  identity's email and the timestamp the handler read (the string
  \<^verbatim>\<open>new Date().toISOString()\<close> returned) is delivered to every socket still
  registered, whatever rooms they are in, \<open>isOnline\<close> of the email becomes false,
  and the update of \<^verbatim>\<open>last_seen\<close> is issued with the same email and timestamp. The
  broadcast is the same for every outcome \<open>res\<close> of that update, failures included.
\<close>

theorem disconnect_offline:
  assumes "map_of (sockets s) c = Some k" and "data_user k = Some u"
  shows "\<not> isOnline (fst (step (disconnect c lastSeen res) s)) (email u) \<and>
         (\<forall>d. Emit d (user_offline (email u) lastSeen) \<in> set (snd (step (disconnect c lastSeen res) s))
                \<longleftrightarrow> registered (sockets s) d \<and> d \<noteq> c) \<and>
         (\<forall>d. registered (sockets (fst (step (disconnect c lastSeen res) s))) d
                \<longleftrightarrow> registered (sockets s) d \<and> d \<noteq> c) \<and>
         UpdateLastSeen (email u) lastSeen \<in> set (snd (step (disconnect c lastSeen res) s))"
  using assms
  by (auto simp: on_disconnect_def isOnline_def set_broadcastGlobal registered_unregister
           split: store_result.splits)

theorem disconnect_offline_witness:
  "map_of (sockets two_joined) ''X'' = Some \<lparr>rooms = {''r1''}, data_user = Some alice\<rparr> \<and>
   data_user \<lparr>rooms = {''r1''}, data_user = Some alice\<rparr> = Some alice \<and>
   \<not> isOnline (fst (step (disconnect ''X'' ''2024-05-01T10:00:05.000Z'' (StoreError ''down'')) two_joined)) (email alice) \<and>
   snd (step (disconnect ''X'' ''2024-05-01T10:00:05.000Z'' (StoreError ''down'')) two_joined) =
     [Emit ''Y'' (user_offline ''a@x.com'' ''2024-05-01T10:00:05.000Z''), UpdateLastSeen ''a@x.com'' ''2024-05-01T10:00:05.000Z'',
      Console (log_disconnected ''A'')] \<and>
   snd (step (disconnect ''X'' ''2024-05-01T10:00:05.000Z'' (Rejected ''down'')) two_joined) =
     [Emit ''Y'' (user_offline ''a@x.com'' ''2024-05-01T10:00:05.000Z''), UpdateLastSeen ''a@x.com'' ''2024-05-01T10:00:05.000Z'']"
proof -
  have h1: "map_of (sockets two_joined) ''X'' = Some \<lparr>rooms = {''r1''}, data_user = Some alice\<rparr>"
    by (simp add: two_joined_sockets)
  have h2: "data_user \<lparr>rooms = {''r1''}, data_user = Some alice\<rparr> = Some alice" by simp
  have o1: "snd (step (disconnect ''X'' ''2024-05-01T10:00:05.000Z'' (StoreError ''down'')) two_joined) =
     [Emit ''Y'' (user_offline ''a@x.com'' ''2024-05-01T10:00:05.000Z''), UpdateLastSeen ''a@x.com'' ''2024-05-01T10:00:05.000Z'',
      Console (log_disconnected ''A'')]"
    by (simp add: two_joined_sockets on_disconnect_def unregister_def broadcastGlobal_def alice_def)
  have o2: "snd (step (disconnect ''X'' ''2024-05-01T10:00:05.000Z'' (Rejected ''down'')) two_joined) =
     [Emit ''Y'' (user_offline ''a@x.com'' ''2024-05-01T10:00:05.000Z''), UpdateLastSeen ''a@x.com'' ''2024-05-01T10:00:05.000Z'']"
    by (simp add: two_joined_sockets on_disconnect_def unregister_def broadcastGlobal_def alice_def)
  show ?thesis
    using h1 h2 o1 o2 disconnect_offline [OF h1 h2, of "''2024-05-01T10:00:05.000Z''" "StoreError ''down''"]
    by blast
qed

subsection \<open>C6: what a join establishes\<close>

text \<open>
  C6: after a registered socket C has processed \<open>join-room\<close> with a room and a
  user, \<open>isOnline\<close> of the user's email is true, C is a member of the room, and
  \<open>user_online\<close> with the email is delivered to exactly the members of the room, C
  among them; the handler emits no other event.
\<close>

theorem join_room_post:
  assumes "registered (sockets s) c"
  shows "isOnline (fst (step (join_room c r u) s)) (email u) \<and>
         is_member (sockets (fst (step (join_room c r u) s))) c r \<and>
         (\<forall>d. Emit d (user_online (email u)) \<in> set (snd (step (join_room c r u) s))
                \<longleftrightarrow> is_member (sockets (fst (step (join_room c r u) s))) d r) \<and>
         Emit c (user_online (email u)) \<in> set (snd (step (join_room c r u) s)) \<and>
         (\<forall>d ev. Emit d ev \<in> set (snd (step (join_room c r u) s)) \<longrightarrow> ev = user_online (email u))"
  using assms
  by (auto simp: on_join_room_def Let_def isOnline_def set_broadcast is_member_joined)

theorem join_room_post_witness:
  "registered (sockets one_joined) ''Y'' \<and>
   isOnline (fst (step (join_room ''Y'' ''r1'' bob) one_joined)) (email bob) \<and>
   is_member (sockets (fst (step (join_room ''Y'' ''r1'' bob) one_joined))) ''Y'' ''r1'' \<and>
   snd (step (join_room ''Y'' ''r1'' bob) one_joined) =
     [Emit ''X'' (user_online ''b@x.com''), Emit ''Y'' (user_online ''b@x.com''),
      Console (log_joined ''B'' ''r1'')]"
proof -
  have h: "registered (sockets one_joined) ''Y''"
    by (simp add: one_joined_sockets registered_def)
  have out: "snd (step (join_room ''Y'' ''r1'' bob) one_joined) =
     [Emit ''X'' (user_online ''b@x.com''), Emit ''Y'' (user_online ''b@x.com''),
      Console (log_joined ''B'' ''r1'')]"
    by (simp add: one_joined_sockets relay_defs)
  show ?thesis
    using h out join_room_post [OF h, of "''r1''" bob] by blast
qed

subsection \<open>C7: typing goes to the room without the sender\<close>

text \<open>
  C7: a \<open>typing\<close> event of a registered socket X for room r delivers the
  \<open>typing\<close> payload to every member of r other than X and produces no other
  effect; the state is unchanged.
\<close>

theorem typing_relay:
  assumes "registered (sockets s) c"
  shows "fst (step (typing c r isTyping senderName) s) = s \<and>
         set (snd (step (typing c r isTyping senderName) s)) =
           {Emit d (typing_out isTyping senderName) | d. is_member (sockets s) d r \<and> d \<noteq> c}"
  using assms by (auto simp: on_typing_def set_broadcast)

theorem typing_relay_witness:
  "registered (sockets two_joined) ''X'' \<and>
   fst (step (typing ''X'' ''r1'' True ''A'') two_joined) = two_joined \<and>
   snd (step (typing ''X'' ''r1'' True ''A'') two_joined) = [Emit ''Y'' (typing_out True ''A'')]"
proof -
  have h: "registered (sockets two_joined) ''X''"
    by (simp add: two_joined_sockets registered_def)
  have out: "snd (step (typing ''X'' ''r1'' True ''A'') two_joined) =
               [Emit ''Y'' (typing_out True ''A'')]"
    by (simp add: two_joined_sockets relay_defs)
  show ?thesis
    using h out typing_relay [OF h, of "''r1''" True "''A''"] by blast
qed

subsection \<open>C8: a new room is announced to everyone\<close>

text \<open>
  C8: a \<open>new_room_created\<close> event of a registered socket delivers \<open>room_added\<close>
  with the payload to every registered socket, whatever rooms it is in and the sender
  included, and produces no other effect; the state is unchanged.
\<close>

theorem room_added_global:
  assumes "registered (sockets s) c"
  shows "fst (step (new_room_created c info) s) = s \<and>
         set (snd (step (new_room_created c info) s)) =
           {Emit d (room_added info) | d. registered (sockets s) d} \<and>
         Emit c (room_added info) \<in> set (snd (step (new_room_created c info) s))"
  using assms by (auto simp: on_new_room_created_def set_broadcastGlobal)

theorem room_added_global_witness:
  "registered (sockets one_joined) ''Y'' \<and>
   fst (step (new_room_created ''Y'' r2_info) one_joined) = one_joined \<and>
   snd (step (new_room_created ''Y'' r2_info) one_joined) =
     [Emit ''X'' (room_added r2_info), Emit ''Y'' (room_added r2_info)]"
proof -
  have h: "registered (sockets one_joined) ''Y''"
    by (simp add: one_joined_sockets registered_def)
  have out: "snd (step (new_room_created ''Y'' r2_info) one_joined) =
     [Emit ''X'' (room_added r2_info), Emit ''Y'' (room_added r2_info)]"
    by (simp add: one_joined_sockets registered_def on_new_room_created_def broadcastGlobal_def)
  show ?thesis
    using h out room_added_global [OF h, of r2_info] by blast
qed

subsection \<open>C9: a socket that never joined leaves silently\<close>

text \<open>
  C9: when a registered socket with no stored identity disconnects, the handler has no
  effect at all (no event, no store call, no console line) and \<^verbatim>\<open>onlineUsers\<close> is
  unchanged.
\<close>

theorem disconnect_unjoined_silent:
  assumes "map_of (sockets s) c = Some k" and "data_user k = None"
  shows "snd (step (disconnect c lastSeen res) s) = [] \<and>
         onlineUsers (fst (step (disconnect c lastSeen res) s)) = onlineUsers s"
  using assms by (simp add: on_disconnect_def)

theorem disconnect_unjoined_silent_witness:
  "map_of (sockets one_joined) ''Y'' = Some \<lparr>rooms = {}, data_user = None\<rparr> \<and>
   data_user \<lparr>rooms = {}, data_user = None\<rparr> = None \<and>
   snd (step (disconnect ''Y'' ''2024-05-01T10:00:05.000Z'' Stored) one_joined) = [] \<and>
   onlineUsers (fst (step (disconnect ''Y'' ''2024-05-01T10:00:05.000Z'' Stored) one_joined)) = onlineUsers one_joined \<and>
   onlineUsers one_joined ''a@x.com'' = Some ''X''"
proof -
  have h1: "map_of (sockets one_joined) ''Y'' = Some \<lparr>rooms = {}, data_user = None\<rparr>"
    by (simp add: one_joined_sockets)
  have h2: "data_user \<lparr>rooms = {}, data_user = (None :: user option)\<rparr> = None" by simp
  have o: "onlineUsers one_joined ''a@x.com'' = Some ''X''"
    by (simp add: one_joined_onlineUsers)
  show ?thesis
    using h1 h2 o disconnect_unjoined_silent [OF h1 h2, of "''2024-05-01T10:00:05.000Z''" Stored] by blast
qed

subsection \<open>C10: a join touches one presence entry\<close>

text \<open>
  C10: processing \<open>join-room\<close> with a user leaves the presence entry of every email
  other than the user's unchanged. When a registered socket joins as E1, then as a
  different E2, and then disconnects, the entry of E1 still points at that socket after
  the second join and after the disconnect, and the disconnect removes the entry of E2
  and no other.
\<close>

theorem join_room_frame:
  "(\<forall>e. e \<noteq> email u \<longrightarrow> onlineUsers (fst (step (join_room c r u) s)) e = onlineUsers s e) \<and>
   (registered (sockets s0) x \<and> email u1 \<noteq> email u2 \<longrightarrow>
      onlineUsers (run [join_room x r1 u1, join_room x r2 u2] s0) (email u1) = Some x \<and>
      onlineUsers (run [join_room x r1 u1, join_room x r2 u2, disconnect x t res] s0) (email u1) = Some x \<and>
      onlineUsers (run [join_room x r1 u1, join_room x r2 u2, disconnect x t res] s0) (email u2) = None \<and>
      (\<forall>e. e \<noteq> email u2 \<longrightarrow>
         onlineUsers (run [join_room x r1 u1, join_room x r2 u2, disconnect x t res] s0) e =
         onlineUsers (run [join_room x r1 u1, join_room x r2 u2] s0) e))"
proof (intro conjI impI allI)
  fix e assume "e \<noteq> email u"
  then show "onlineUsers (fst (step (join_room c r u) s)) e = onlineUsers s e"
    by (rule join_room_frame_l)
next
  assume a: "registered (sockets s0) x \<and> email u1 \<noteq> email u2"
  define s1 where "s1 = fst (step (join_room x r1 u1) s0)"
  define s2 where "s2 = fst (step (join_room x r2 u2) s1)"
  have r1: "registered (sockets s1) x" using a by (simp add: s1_def registered_after_join)
  have o2: "onlineUsers s2 = (onlineUsers s0)(email u1 \<mapsto> x, email u2 \<mapsto> x)"
    using a r1 by (simp add: s1_def s2_def onlineUsers_after_join)
  obtain k where k: "map_of (sockets s2) x = Some k" "data_user k = Some u2"
    using r1 by (auto simp: s2_def map_of_after_join registered_def)
  have o3: "onlineUsers (fst (step (disconnect x t res) s2)) = (onlineUsers s2)(email u2 := None)"
    using k by (rule onlineUsers_after_disconnect)
  have run2: "run [join_room x r1 u1, join_room x r2 u2] s0 = s2" by (simp add: s1_def s2_def)
  have run3: "run [join_room x r1 u1, join_room x r2 u2, disconnect x t res] s0
               = fst (step (disconnect x t res) s2)" by (simp add: s1_def s2_def)
  show "onlineUsers (run [join_room x r1 u1, join_room x r2 u2] s0) (email u1) = Some x"
    using a by (simp only: run2 o2) simp
  show "onlineUsers (run [join_room x r1 u1, join_room x r2 u2, disconnect x t res] s0) (email u1) = Some x"
    using a by (simp only: run3 o3 o2) simp
  show "onlineUsers (run [join_room x r1 u1, join_room x r2 u2, disconnect x t res] s0) (email u2) = None"
    by (simp only: run3 o3) simp
  fix e assume "e \<noteq> email u2"
  then show "onlineUsers (run [join_room x r1 u1, join_room x r2 u2, disconnect x t res] s0) e =
         onlineUsers (run [join_room x r1 u1, join_room x r2 u2] s0) e"
    by (simp only: run3 run2 o3) simp
qed

theorem join_room_frame_witness:
  "registered (sockets only_connected) ''X'' \<and> email alice \<noteq> email bob \<and>
   onlineUsers (fst (step (join_room ''X'' ''r1'' bob) one_joined)) ''a@x.com'' =
     onlineUsers one_joined ''a@x.com'' \<and>
   onlineUsers (run [join_room ''X'' ''r1'' alice, join_room ''X'' ''r2'' bob] only_connected)
     (email alice) = Some ''X'' \<and>
   onlineUsers (run [join_room ''X'' ''r1'' alice, join_room ''X'' ''r2'' bob,
                     disconnect ''X'' ''2024-05-01T10:00:05.000Z'' Stored] only_connected) (email alice) = Some ''X'' \<and>
   onlineUsers (run [join_room ''X'' ''r1'' alice, join_room ''X'' ''r2'' bob,
                     disconnect ''X'' ''2024-05-01T10:00:05.000Z'' Stored] only_connected) (email bob) = None"
proof -
  have h: "registered (sockets only_connected) ''X'' \<and> email alice \<noteq> email bob"
    by (simp add: only_connected_sockets registered_def alice_def bob_def)
  have n: "''a@x.com'' \<noteq> email bob" by (simp add: bob_def)
  show ?thesis
    using h n
      join_room_frame [where u = bob and c = "''X''" and r = "''r1''" and s = one_joined
                         and x = "''X''" and ?s0.0 = only_connected and ?u1.0 = alice
                         and ?u2.0 = bob and ?r1.0 = "''r1''" and ?r2.0 = "''r2''"
                         and t = "''2024-05-01T10:00:05.000Z''" and res = Stored]
    by blast
qed

end
